theory Spec2Isabelle
  imports Complex_Main "HOL-Library.Log_Nat"
begin

section \<open>The calculator tool server (mcp_calculator_server.py)\<close>

subsection \<open>Python floats\<close>

text \<open>
  A Python \<open>float\<close> is an IEEE 754 binary64 number. \<open>Finite s m e\<close> stands for
  \<open>(-1)^s * m * 2^e\<close>; the values the operations below produce are normalised
  (\<open>0 \<le> m < 2^53\<close>, \<open>-1074 \<le> e \<le> 971\<close>, and \<open>2^52 \<le> m\<close> unless \<open>e = -1074\<close>), so that
  every number has one representation, apart from the two zeros \<open>Finite False 0 (-1074)\<close>
  and \<open>Finite True 0 (-1074)\<close>.
\<close>

datatype pyfloat = Finite bool int int | Infinity bool | NaN

definition float_valid :: "pyfloat \<Rightarrow> bool" where
  "float_valid x =
     (case x of
        Finite s m e \<Rightarrow>
          0 \<le> m \<and> m < 2 ^ 53 \<and> - 1074 \<le> e \<and> e \<le> 971 \<and> (2 ^ 52 \<le> m \<or> e = - 1074)
      | _ \<Rightarrow> True)"

definition float_val :: "pyfloat \<Rightarrow> rat option" where
  "float_val x =
     (case x of
        Finite s m e \<Rightarrow>
          Some ((if s then - 1 else 1) * of_int m * 2 powi e)
      | _ \<Rightarrow> None)"

text \<open>\<open>ilog2_ratio n d\<close> is \<open>\<lfloor>log\<^sub>2 (n / d)\<rfloor>\<close> for positive \<open>n\<close> and \<open>d\<close>.\<close>

definition ilog2_ratio :: "int \<Rightarrow> int \<Rightarrow> int" where
  "ilog2_ratio n d =
     (let l = bitlen n - bitlen d
      in if d * 2 ^ nat l \<le> n * 2 ^ nat (- l) then l else l - 1)"

text \<open>
  \<open>round_float s n d\<close> rounds the rational \<open>(-1)^s * n / d\<close> (\<open>n \<ge> 0\<close>, \<open>d > 0\<close>) to the
  nearest binary64 number, ties to the even significand, overflowing to an infinity.
\<close>

definition round_float :: "bool \<Rightarrow> int \<Rightarrow> int \<Rightarrow> pyfloat" where
  "round_float s n d =
     (if n = 0 then Finite s 0 (- 1074)
      else
        let e = max (- 1074) (ilog2_ratio n d - 52);
            num = n * 2 ^ nat (- e);
            den = d * 2 ^ nat e;
            q = num div den;
            r = num mod den;
            m = (if den < 2 * r \<or> (2 * r = den \<and> odd q) then q + 1 else q);
            e' = (if m = 2 ^ 53 then e + 1 else e);
            m' = (if m = 2 ^ 53 then 2 ^ 52 else m)
        in if 971 < e' then Infinity s else Finite s m' e')"

text \<open>\<open>float(i)\<close> for an integer \<open>i\<close> within the range of a float.\<close>

definition float_of_int :: "int \<Rightarrow> pyfloat" where
  "float_of_int i = round_float (i < 0) \<bar>i\<bar> 1"

text \<open>
  \<open>b == 0\<close> for a float \<open>b\<close>: true of both zeros, false of every other number, of the
  infinities and of NaN.
\<close>

definition float_eq_zero :: "pyfloat \<Rightarrow> bool" where
  "float_eq_zero x = (case x of Finite s m e \<Rightarrow> m = 0 | _ \<Rightarrow> False)"

text \<open>The IEEE 754 quotient of two floats whose divisor is not zero.\<close>

fun float_div :: "pyfloat \<Rightarrow> pyfloat \<Rightarrow> pyfloat" where
  "float_div NaN y = NaN"
| "float_div x NaN = NaN"
| "float_div (Infinity s) (Infinity t) = NaN"
| "float_div (Infinity s) (Finite t n f) = Infinity (s \<noteq> t)"
| "float_div (Finite s m e) (Infinity t) = Finite (s \<noteq> t) 0 (- 1074)"
| "float_div (Finite s m e) (Finite t n f) =
     round_float (s \<noteq> t) (m * 2 ^ nat (e - f)) (n * 2 ^ nat (f - e))"

datatype error = ValueError string | ZeroDivisionError string

text \<open>Python's \<open>a / b\<close> on floats raises when \<open>b\<close> is zero.\<close>

definition truediv :: "pyfloat \<Rightarrow> pyfloat \<Rightarrow> error + pyfloat" where
  "truediv a b =
     (if float_eq_zero b then Inl (ZeroDivisionError ''float division by zero'')
      else Inr (float_div a b))"

subsection \<open>The logger\<close>

text \<open>
  The module configures logging at level INFO and every message below is logged with
  \<open>logger.info\<close>, so each call of it emits one record. The log is the list of the records
  emitted so far, oldest first. \<open>Tool_called name a b\<close> is the record
  \<open>Tool called: name | a=.., b=..\<close> and \<open>Tool_completed name r\<close> is
  \<open>Tool completed: name | result=..\<close>.
\<close>

datatype pyval = PInt int | PFloat pyfloat

datatype log_record = Tool_called string pyval pyval | Tool_completed string pyval

type_synonym logger = "log_record list"

definition logger_info :: "log_record \<Rightarrow> logger \<Rightarrow> logger" where
  "logger_info r lg = lg @ [r]"

subsection \<open>Formatting an integer\<close>

text \<open>
  Every log message is built by an f-string before \<open>logger.info\<close> is called. Formatting
  an \<open>int\<close> converts it to its decimal string, and Python refuses that conversion with a
  \<open>ValueError\<close> when the number has more than \<open>sys.int_max_str_digits\<close> digits, 4300 unless
  reconfigured, which the module does not do. The sign does not count as a digit.
  Formatting a \<open>float\<close> never raises.
\<close>

definition int_max_str_digits :: nat where
  "int_max_str_digits = 4300"

definition int_str_ok :: "int \<Rightarrow> bool" where
  "int_str_ok x = (\<bar>x\<bar> < 10 ^ int_max_str_digits)"

definition int_str_error :: error where
  "int_str_error =
     ValueError (''Exceeds the limit (4300 digits) for integer string conversion; '' @
                 ''use sys.set_int_max_str_digits() to increase the limit'')"

subsection \<open>The four tools\<close>

text \<open>
  In the three integer tools the first f-string formats \<open>a\<close> and \<open>b\<close>: if either is too
  long it raises and nothing has been logged. The second f-string formats \<open>result\<close>: if
  that is too long it raises after the entry record was written, and the function does
  not return.
\<close>

definition add_numbers :: "int \<Rightarrow> int \<Rightarrow> logger \<Rightarrow> (error + int) \<times> logger" where
  "add_numbers a b lg =
     (if int_str_ok a \<and> int_str_ok b then
        let lg1 = logger_info (Tool_called ''add_numbers'' (PInt a) (PInt b)) lg;
            result = a + b
        in if int_str_ok result
           then (Inr result, logger_info (Tool_completed ''add_numbers'' (PInt result)) lg1)
           else (Inl int_str_error, lg1)
      else (Inl int_str_error, lg))"

definition subtract_numbers :: "int \<Rightarrow> int \<Rightarrow> logger \<Rightarrow> (error + int) \<times> logger" where
  "subtract_numbers a b lg =
     (if int_str_ok a \<and> int_str_ok b then
        let lg1 = logger_info (Tool_called ''subtract_numbers'' (PInt a) (PInt b)) lg;
            result = a - b
        in if int_str_ok result
           then (Inr result, logger_info (Tool_completed ''subtract_numbers'' (PInt result)) lg1)
           else (Inl int_str_error, lg1)
      else (Inl int_str_error, lg))"

definition multiply_numbers :: "int \<Rightarrow> int \<Rightarrow> logger \<Rightarrow> (error + int) \<times> logger" where
  "multiply_numbers a b lg =
     (if int_str_ok a \<and> int_str_ok b then
        let lg1 = logger_info (Tool_called ''multiply_numbers'' (PInt a) (PInt b)) lg;
            result = a * b
        in if int_str_ok result
           then (Inr result, logger_info (Tool_completed ''multiply_numbers'' (PInt result)) lg1)
           else (Inl int_str_error, lg1)
      else (Inl int_str_error, lg))"

definition divide_numbers :: "pyfloat \<Rightarrow> pyfloat \<Rightarrow> logger \<Rightarrow> (error + pyfloat) \<times> logger" where
  "divide_numbers a b lg =
     (if float_eq_zero b then (Inl (ValueError ''Cannot divide by zero''), lg)
      else
        let lg1 = logger_info (Tool_called ''divide_numbers'' (PFloat a) (PFloat b)) lg
        in case truediv a b of
             Inl err \<Rightarrow> (Inl err, lg1)
           | Inr result \<Rightarrow>
               (Inr result, logger_info (Tool_completed ''divide_numbers'' (PFloat result)) lg1))"

subsection \<open>Tool registration\<close>

text \<open>
  Each of the four functions is decorated with \<open>@mcp.tool()\<close>, which adds it to the
  server's tool table under the function's own name, with the parameters and the return
  type of its signature. A tool's \<open>tool_fn\<close> is the decorated function itself, at the
  types of its signature. How the server library turns a request into a call of that
  function (parsing, converting and checking the arguments, reporting an error to the
  client) is not part of this module and is not modelled.
\<close>

datatype pytype = TInt | TFloat

datatype tool_impl =
    Int_tool "int \<Rightarrow> int \<Rightarrow> logger \<Rightarrow> (error + int) \<times> logger"
  | Float_tool "pyfloat \<Rightarrow> pyfloat \<Rightarrow> logger \<Rightarrow> (error + pyfloat) \<times> logger"

record tool =
  tool_name :: string
  tool_params :: "(string \<times> pytype) list"
  tool_return :: pytype
  tool_fn :: tool_impl

record fastmcp =
  server_name :: string
  tools :: "tool list"

definition FastMCP :: "string \<Rightarrow> fastmcp" where
  "FastMCP name = \<lparr>server_name = name, tools = []\<rparr>"

definition register_tool :: "tool \<Rightarrow> fastmcp \<Rightarrow> fastmcp" where
  "register_tool t srv = srv\<lparr>tools := tools srv @ [t]\<rparr>"

definition add_numbers_tool :: tool where
  "add_numbers_tool =
     \<lparr>tool_name = ''add_numbers'',
      tool_params = [(''a'', TInt), (''b'', TInt)],
      tool_return = TInt,
      tool_fn = Int_tool add_numbers\<rparr>"

definition subtract_numbers_tool :: tool where
  "subtract_numbers_tool =
     \<lparr>tool_name = ''subtract_numbers'',
      tool_params = [(''a'', TInt), (''b'', TInt)],
      tool_return = TInt,
      tool_fn = Int_tool subtract_numbers\<rparr>"

definition multiply_numbers_tool :: tool where
  "multiply_numbers_tool =
     \<lparr>tool_name = ''multiply_numbers'',
      tool_params = [(''a'', TInt), (''b'', TInt)],
      tool_return = TInt,
      tool_fn = Int_tool multiply_numbers\<rparr>"

definition divide_numbers_tool :: tool where
  "divide_numbers_tool =
     \<lparr>tool_name = ''divide_numbers'',
      tool_params = [(''a'', TFloat), (''b'', TFloat)],
      tool_return = TFloat,
      tool_fn = Float_tool divide_numbers\<rparr>"

text \<open>The module body: the server object, then the four registrations in source order.\<close>

definition mcp :: fastmcp where
  "mcp =
     register_tool divide_numbers_tool
       (register_tool multiply_numbers_tool
         (register_tool subtract_numbers_tool
           (register_tool add_numbers_tool (FastMCP ''calculator-server''))))"

text \<open>
  Tool discovery lists name, parameters and return type of every registered tool.
\<close>

definition list_tools :: "fastmcp \<Rightarrow> (string \<times> (string \<times> pytype) list \<times> pytype) list" where
  "list_tools srv = map (\<lambda>t. (tool_name t, tool_params t, tool_return t)) (tools srv)"

section \<open>The client script (crew.py)\<close>

text \<open>
  The script runs once, top to bottom, inside \<open>try: ... except Exception as e\<close>. What the
  libraries it calls do is given by an environment:
  \<^item> \<open>connect\<close>: entering \<open>with MCPServerAdapter(server_params) as tools\<close> either raises or
    yields the discovered tools (their names);
  \<^item> \<open>build\<close>: the exception, if any, raised while constructing the \<open>Agent\<close>, the \<open>Task\<close>
    and the \<open>Crew\<close>;
  \<^item> \<open>kickoff\<close>: \<open>calculator_crew.kickoff()\<close> either raises or returns the report.
  An exception is either an instance of \<open>Exception\<close>, which the \<open>except\<close> clause catches,
  or of another \<open>BaseException\<close> class, which it does not.
\<close>

datatype exc = Exception string | Other_BaseException string

record env =
  connect :: "exc + string list"
  build :: "exc option"
  kickoff :: "exc + string"

text \<open>
  The observable steps of a run, in order: the five \<open>print\<close> calls of the script, the
  call of \<open>kickoff\<close> (the only place where tools are invoked), and the adapter's
  \<open>__exit__\<close> when the \<open>with\<close> block is left.
\<close>

datatype event =
    Print_available_tools "string list"
  | Crew_kickoff
  | Print_result string
  | Print_skipping
  | Print_error string
  | Print_ensure_running
  | Adapter_exit

datatype exit_status = Clean_exit | Uncaught exc

definition except_Exception :: "exc \<Rightarrow> event list \<Rightarrow> event list \<times> exit_status" where
  "except_Exception e out =
     (case e of
        Exception msg \<Rightarrow> (out @ [Print_error msg, Print_ensure_running], Clean_exit)
      | Other_BaseException msg \<Rightarrow> (out, Uncaught e))"

definition crew_script :: "env \<Rightarrow> event list \<times> exit_status" where
  "crew_script ev =
     (case connect ev of
        Inl e \<Rightarrow> except_Exception e []
      | Inr tls \<Rightarrow>
          let out = [Print_available_tools tls] in
          case build ev of
            Some e \<Rightarrow> except_Exception e (out @ [Adapter_exit])
          | None \<Rightarrow>
              if tls \<noteq> [] then
                case kickoff ev of
                  Inl e \<Rightarrow> except_Exception e (out @ [Crew_kickoff, Adapter_exit])
                | Inr result \<Rightarrow>
                    (out @ [Crew_kickoff, Print_result result, Adapter_exit], Clean_exit)
              else (out @ [Print_skipping, Adapter_exit], Clean_exit))"

section \<open>Properties of the tool server\<close>

subsection \<open>Auxiliary facts\<close>

lemma divide_numbers_nonzero:
  "\<not> float_eq_zero b \<Longrightarrow>
   divide_numbers a b lg =
     (Inr (float_div a b),
      lg @ [Tool_called ''divide_numbers'' (PFloat a) (PFloat b),
            Tool_completed ''divide_numbers'' (PFloat (float_div a b))])"
  by (simp add: divide_numbers_def truediv_def logger_info_def Let_def)

lemma divide_numbers_zero:
  "float_eq_zero b \<Longrightarrow> divide_numbers a b lg = (Inl (ValueError ''Cannot divide by zero''), lg)"
  by (simp add: divide_numbers_def)

text \<open>Python's own \<open>ZeroDivisionError\<close> never leaves \<open>divide_numbers\<close>: the guard is first.\<close>

lemma divide_numbers_no_ZeroDivisionError:
  "fst (divide_numbers a b lg) \<noteq> Inl (ZeroDivisionError msg)"
  by (cases "float_eq_zero b") (simp_all add: divide_numbers_nonzero divide_numbers_zero)

lemma float_zero_eq_zero: "float_eq_zero (float_of_int 0)"
  by (simp add: float_of_int_def round_float_def float_eq_zero_def)

lemma float_negative_zero_eq_zero: "float_eq_zero (Finite True 0 (- 1074))"
  by (simp add: float_eq_zero_def)

lemma float_three_not_zero: "\<not> float_eq_zero (float_of_int 3)"
  by code_simp

lemma float_four_not_zero: "\<not> float_eq_zero (float_of_int 4)"
  by code_simp

lemma float_div_100_4: "float_div (float_of_int 100) (float_of_int 4) = float_of_int 25"
  by code_simp

lemma float_div_1_3:
  "float_div (float_of_int 1) (float_of_int 3) = Finite False 6004799503160661 (- 54)"
  by code_simp

lemma tools_mcp:
  "tools mcp =
     [add_numbers_tool, subtract_numbers_tool, multiply_numbers_tool, divide_numbers_tool]"
  by (simp add: mcp_def register_tool_def FastMCP_def)

lemma catalog_names:
  "map fst (list_tools mcp) =
     [''add_numbers'', ''subtract_numbers'', ''multiply_numbers'', ''divide_numbers'']"
  by (simp add: list_tools_def tools_mcp add_numbers_tool_def subtract_numbers_tool_def
      multiply_numbers_tool_def divide_numbers_tool_def)


text \<open>Integers of few digits can be formatted; powers of ten show where the limit is.\<close>

lemma int_str_ok_small: "\<bar>x\<bar> < 1000 \<Longrightarrow> int_str_ok x"
proof -
  assume "\<bar>x\<bar> < 1000"
  moreover have "(10::int) ^ 3 \<le> 10 ^ int_max_str_digits"
    by (rule power_increasing) (simp_all add: int_max_str_digits_def)
  ultimately show ?thesis by (simp add: int_str_ok_def)
qed

lemma int_str_ok_power10: "n < int_max_str_digits \<Longrightarrow> int_str_ok (10 ^ n)"
  by (simp add: int_str_ok_def)

lemma not_int_str_ok_power10: "int_max_str_digits \<le> n \<Longrightarrow> \<not> int_str_ok (10 ^ n)"
  by (simp add: int_str_ok_def)

text \<open>The three integer tools, case by case.\<close>

lemma add_numbers_returns:
  "int_str_ok a \<Longrightarrow> int_str_ok b \<Longrightarrow> int_str_ok (a + b) \<Longrightarrow>
   add_numbers a b lg =
     (Inr (a + b),
      lg @ [Tool_called ''add_numbers'' (PInt a) (PInt b),
            Tool_completed ''add_numbers'' (PInt (a + b))])"
  by (simp add: add_numbers_def logger_info_def Let_def)

lemma subtract_numbers_returns:
  "int_str_ok a \<Longrightarrow> int_str_ok b \<Longrightarrow> int_str_ok (a - b) \<Longrightarrow>
   subtract_numbers a b lg =
     (Inr (a - b),
      lg @ [Tool_called ''subtract_numbers'' (PInt a) (PInt b),
            Tool_completed ''subtract_numbers'' (PInt (a - b))])"
  by (simp add: subtract_numbers_def logger_info_def Let_def)

lemma multiply_numbers_returns:
  "int_str_ok a \<Longrightarrow> int_str_ok b \<Longrightarrow> int_str_ok (a * b) \<Longrightarrow>
   multiply_numbers a b lg =
     (Inr (a * b),
      lg @ [Tool_called ''multiply_numbers'' (PInt a) (PInt b),
            Tool_completed ''multiply_numbers'' (PInt (a * b))])"
  by (simp add: multiply_numbers_def logger_info_def Let_def)

lemma multiply_numbers_long_result:
  "int_str_ok a \<Longrightarrow> int_str_ok b \<Longrightarrow> \<not> int_str_ok (a * b) \<Longrightarrow>
   multiply_numbers a b lg =
     (Inl int_str_error, lg @ [Tool_called ''multiply_numbers'' (PInt a) (PInt b)])"
  by (simp add: multiply_numbers_def logger_info_def Let_def)


text \<open>The four calculations of the client's task.\<close>

lemma scenario:
  "fst (add_numbers 15 27 lg) = Inr 42"
  "fst (subtract_numbers 50 10 lg) = Inr 40"
  "fst (multiply_numbers 8 6 lg) = Inr 48"
  "fst (divide_numbers (float_of_int 100) (float_of_int 4) lg) = Inr (float_of_int 25)"
  by (simp_all add: add_numbers_returns subtract_numbers_returns multiply_numbers_returns
      int_str_ok_small divide_numbers_nonzero [OF float_four_not_zero] float_div_100_4)

text \<open>
  A run of the client against this server, when every library call succeeds: the four
  tool names are printed, the crew is started, its report is printed.
\<close>

lemma crew_script_with_calculator_tools:
  "crew_script \<lparr>connect = Inr (map fst (list_tools mcp)), build = None, kickoff = Inr report\<rparr> =
     ([Print_available_tools
         [''add_numbers'', ''subtract_numbers'', ''multiply_numbers'', ''divide_numbers''],
       Crew_kickoff, Print_result report, Adapter_exit],
      Clean_exit)"
  by (simp add: crew_script_def catalog_names)

subsection \<open>The float quotient is correctly rounded\<close>

text \<open>
  For finite floats \<open>a\<close> and \<open>b\<close> with \<open>b\<close> not zero, a finite \<open>float_div a b\<close> is a
  normalised binary64 number within half a unit in its last place of the exact quotient
  of the two values (\<open>float_div_correctly_rounded\<close> below). The steps: the exponent found
  by \<open>ilog2_ratio\<close> brackets the quotient, the scaled integer division is a floor, and the
  rounding step moves it by at most one half.
\<close>

lemma ratio_scale:
  fixes n d e :: int
  assumes "0 < d"
  shows "(of_int (n * 2 ^ nat (- e)) :: rat) / of_int (d * 2 ^ nat e) = of_int n / of_int d / 2 powi e"
proof (cases "0 \<le> e")
  case True
  then show ?thesis by (simp add: power_int_def)
next
  case False
  then show ?thesis by (simp add: power_int_def power_inverse field_simps)
qed

lemma bitlen_powi:
  fixes x :: int
  assumes "0 < x"
  shows "(2::rat) powi (bitlen x - 1) \<le> of_int x" and "(of_int x :: rat) < 2 powi bitlen x"
proof -
  from assms have b: "1 \<le> bitlen x" by (auto simp: bitlen_alt_def)
  from bitlen_bounds [OF assms] have "2 ^ nat (bitlen x - 1) \<le> x" "x < 2 ^ nat (bitlen x)" by auto
  then have "(of_int (2 ^ nat (bitlen x - 1)) :: rat) \<le> of_int x" "(of_int x :: rat) < of_int (2 ^ nat (bitlen x))"
    by (simp_all only: of_int_le_iff of_int_less_iff)
  with b show "(2::rat) powi (bitlen x - 1) \<le> of_int x" "(of_int x :: rat) < 2 powi bitlen x"
    by (simp_all add: power_int_def)
qed

lemma ilog2_ratio_bounds:
  fixes n d :: int
  assumes "0 < n" "0 < d"
  shows "(2::rat) powi ilog2_ratio n d \<le> of_int n / of_int d"
    and "(of_int n :: rat) / of_int d < 2 powi (ilog2_ratio n d + 1)"
proof -
  define l where "l = bitlen n - bitlen d"
  let ?x = "(of_int n :: rat) / of_int d"
  have dpos: "(0::rat) < of_int d" using assms by simp
  have c: "(d * 2 ^ nat l \<le> n * 2 ^ nat (- l)) = ((2::rat) powi l \<le> ?x)"
  proof -
    have "(d * 2 ^ nat l \<le> n * 2 ^ nat (- l)) = ((of_int (d * 2 ^ nat l) :: rat) \<le> of_int (n * 2 ^ nat (- l)))"
      by (simp only: of_int_le_iff)
    also have "\<dots> = (1 \<le> (of_int (n * 2 ^ nat (- l)) :: rat) / of_int (d * 2 ^ nat l))"
      using assms by (simp add: field_simps)
    also have "\<dots> = (1 \<le> ?x / 2 powi l)"
      by (simp only: ratio_scale [OF assms(2)])
    also have "\<dots> = ((2::rat) powi l \<le> ?x)"
      by (simp only: pos_le_divide_eq [of "2 powi l", OF zero_less_power_int [OF zero_less_numeral]] mult_1)
    finally show ?thesis .
  qed
  have up: "?x < 2 powi (l + 1)"
  proof -
    have "of_int n < (2::rat) powi bitlen n" using bitlen_powi(2) [OF assms(1)] .
    moreover have "(2::rat) powi (bitlen d - 1) \<le> of_int d" using bitlen_powi(1) [OF assms(2)] .
    ultimately have "of_int n * (2::rat) powi (bitlen d - 1) < 2 powi bitlen n * of_int d"
      using dpos assms by (intro mult_less_le_imp_less) auto
    then have "?x < 2 powi bitlen n / 2 powi (bitlen d - 1)"
      using dpos by (simp add: field_simps)
    also have "\<dots> = 2 powi (bitlen n - (bitlen d - 1))"
      by (rule power_int_diff [symmetric]) simp
    also have "bitlen n - (bitlen d - 1) = l + 1"
      by (simp add: l_def)
    finally show ?thesis .
  qed
  have lo: "(2::rat) powi (l - 1) \<le> ?x"
  proof -
    have "(2::rat) powi (bitlen n - 1) \<le> of_int n" using bitlen_powi(1) [OF assms(1)] .
    moreover have "of_int d < (2::rat) powi bitlen d" using bitlen_powi(2) [OF assms(2)] .
    ultimately have "(2::rat) powi (bitlen n - 1) * of_int d \<le> of_int n * 2 powi bitlen d"
      using assms by (intro mult_mono) auto
    then have "(2::rat) powi (bitlen n - 1) / 2 powi bitlen d \<le> ?x"
      using dpos by (simp add: field_simps)
    moreover have "(2::rat) powi (bitlen n - 1) / 2 powi bitlen d = 2 powi (bitlen n - 1 - bitlen d)"
      by (rule power_int_diff [symmetric]) simp
    moreover have "bitlen n - 1 - bitlen d = l - 1"
      by (simp add: l_def)
    ultimately show ?thesis by simp
  qed
  show "(2::rat) powi ilog2_ratio n d \<le> ?x"
    using c lo by (simp add: ilog2_ratio_def Let_def l_def [symmetric])
  show "?x < 2 powi (ilog2_ratio n d + 1)"
    using c up by (auto simp add: ilog2_ratio_def Let_def l_def [symmetric])
qed


lemma round_half:
  fixes num den :: int
  assumes "0 < den"
  defines "q \<equiv> num div den" and "r \<equiv> num mod den"
  defines "m \<equiv> (if den < 2 * r \<or> (2 * r = den \<and> odd q) then q + 1 else q)"
  shows "\<bar>(of_int m :: rat) - of_int num / of_int den\<bar> \<le> 1 / 2"
    and "q \<le> m" and "m \<le> q + 1"
proof -
  have r: "0 \<le> r" "r < den" using assms by (simp_all add: r_def)
  have "num = q * den + r" by (simp add: q_def r_def)
  then have "(of_int num :: rat) = of_int q * of_int den + of_int r"
    by (metis of_int_add of_int_mult)
  then have x: "(of_int num :: rat) / of_int den = of_int q + of_int r / of_int den"
    using assms(1) by (simp add: field_simps)
  have dpos: "(0::rat) < of_int den" using assms(1) by simp
  show "\<bar>(of_int m :: rat) - of_int num / of_int den\<bar> \<le> 1 / 2"
  proof (cases "den < 2 * r \<or> (2 * r = den \<and> odd q)")
    case True
    then have "den \<le> 2 * r" by auto
    then have "(of_int den :: rat) \<le> 2 * of_int r"
      by (metis of_int_le_iff of_int_mult of_int_numeral)
    then have h: "1 / 2 \<le> (of_int r :: rat) / of_int den"
      using dpos by (simp add: field_simps)
    have "(of_int r :: rat) < of_int den" using r by simp
    then have "(of_int r :: rat) / of_int den < 1" using dpos by simp
    moreover from True have "m = q + 1" by (simp add: m_def)
    ultimately show ?thesis using h unfolding x by (simp add: abs_if)
  next
    case False
    then have "2 * r \<le> den" by auto
    then have "2 * (of_int r :: rat) \<le> of_int den"
      by (metis of_int_le_iff of_int_mult of_int_numeral)
    then have h: "(of_int r :: rat) / of_int den \<le> 1 / 2"
      using dpos by (simp add: field_simps)
    have "0 \<le> (of_int r :: rat) / of_int den" using r dpos by simp
    moreover from False have "m = q" by (simp add: m_def)
    ultimately show ?thesis using h unfolding x by (simp add: abs_if)
  qed
  show "q \<le> m" "m \<le> q + 1" by (simp_all add: m_def)
qed

lemma round_float_correct:
  fixes n d :: int
  assumes "0 < n" "0 < d" and res: "round_float s n d = Finite u m e"
  shows "u = s"
    and "float_valid (Finite u m e)"
    and "\<bar>(of_int m :: rat) * 2 powi e - of_int n / of_int d\<bar> \<le> 2 powi e / 2"
proof -
  define k where "k = ilog2_ratio n d"
  define e0 where "e0 = max (- 1074) (k - 52)"
  define num where "num = n * 2 ^ nat (- e0)"
  define den where "den = d * 2 ^ nat e0"
  define q where "q = num div den"
  define r where "r = num mod den"
  define m0 where "m0 = (if den < 2 * r \<or> (2 * r = den \<and> odd q) then q + 1 else q)"
  let ?x = "(of_int n :: rat) / of_int d"
  have denpos: "0 < den" using assms(2) by (simp add: den_def)
  have numpos: "0 < num" using assms(1) by (simp add: num_def)
  have sc: "(of_int num :: rat) / of_int den = ?x / 2 powi e0"
    unfolding num_def den_def by (rule ratio_scale [OF assms(2)])
  have unf: "round_float s n d =
      (if 971 < (if m0 = 2 ^ 53 then e0 + 1 else e0) then Infinity s
       else Finite s (if m0 = 2 ^ 53 then 2 ^ 52 else m0) (if m0 = 2 ^ 53 then e0 + 1 else e0))"
  proof -
    from assms(1) have "n \<noteq> 0" by simp
    then show ?thesis
      unfolding round_float_def Let_def m0_def r_def q_def den_def num_def e0_def k_def
      by (simp only: if_False)
  qed
  have half: "\<bar>(of_int m0 :: rat) - of_int num / of_int den\<bar> \<le> 1 / 2"
    and qm: "q \<le> m0" "m0 \<le> q + 1"
    unfolding m0_def r_def q_def by (rule round_half [OF denpos])+
  have qfloor: "(of_int q :: rat) \<le> of_int num / of_int den" "(of_int num :: rat) / of_int den < of_int q + 1"
  proof -
    have "q = \<lfloor>(of_int num :: rat) / of_int den\<rfloor>"
      by (simp add: q_def floor_divide_of_int_eq)
    then show "(of_int q :: rat) \<le> of_int num / of_int den" "(of_int num :: rat) / of_int den < of_int q + 1"
      using floor_correct [of "(of_int num :: rat) / of_int den"] by simp_all
  qed
  have q0: "0 \<le> q" using numpos denpos by (simp add: q_def pos_imp_zdiv_nonneg_iff)
  have klo: "(2::rat) powi k \<le> ?x" and kup: "?x < 2 powi (k + 1)"
    using ilog2_ratio_bounds [OF assms(1,2)] by (simp_all add: k_def)
  have e0lo: "- 1074 \<le> e0" by (simp add: e0_def)
  have m0up: "m0 \<le> 2 ^ 53"
  proof -
    have "k + 1 - e0 \<le> 53" by (simp add: e0_def max_def)
    have "(of_int num :: rat) / of_int den < 2 powi (k + 1) / 2 powi e0"
      unfolding sc by (rule divide_strict_right_mono [OF kup]) simp
    also have "\<dots> = 2 powi (k + 1 - e0)" by (rule power_int_diff [symmetric]) simp
    also have "\<dots> \<le> 2 powi 53"
      using \<open>k + 1 - e0 \<le> 53\<close> by (intro power_int_increasing) simp_all
    finally have "(of_int q :: rat) < 2 powi 53" using qfloor(1) by simp
    then have "(of_int q :: rat) < of_int (2 ^ 53)" by simp
    then have "q < 2 ^ 53" by (simp only: of_int_less_iff)
    with qm show ?thesis by simp
  qed
  have m0lo: "2 ^ 52 \<le> m0" if "e0 \<noteq> - 1074"
  proof -
    from that have e: "e0 = k - 52" by (simp add: e0_def max_def split: if_splits)
    have "(2::rat) powi 52 = 2 powi (k - e0)" by (simp add: e)
    also have "\<dots> = 2 powi k / 2 powi e0" by (rule power_int_diff) simp
    also have "\<dots> \<le> ?x / 2 powi e0" by (rule divide_right_mono [OF klo]) simp
    also have "\<dots> < of_int q + 1" using qfloor(2) unfolding sc .
    finally have "(of_int (2 ^ 52) :: rat) < of_int (q + 1)" by simp
    then have "2 ^ 52 < q + 1" by (simp only: of_int_less_iff)
    with qm show ?thesis by simp
  qed
  have m0nn: "0 \<le> m0" using q0 qm by simp
  have err0: "\<bar>(of_int m0 :: rat) * 2 powi e0 - ?x\<bar> \<le> 2 powi e0 / 2"
  proof -
    have p: "(0::rat) < 2 powi e0" by simp
    have "((of_int m0 :: rat) - ?x / 2 powi e0) * 2 powi e0 = of_int m0 * 2 powi e0 - ?x"
      by (simp add: left_diff_distrib)
    then have "\<bar>(of_int m0 :: rat) * 2 powi e0 - ?x\<bar> = \<bar>(of_int m0 :: rat) - ?x / 2 powi e0\<bar> * \<bar>2 powi e0\<bar>"
      by (simp only: abs_mult [symmetric])
    also have "\<dots> = \<bar>(of_int m0 :: rat) - ?x / 2 powi e0\<bar> * 2 powi e0"
      using p by simp
    also have "\<dots> \<le> 1 / 2 * 2 powi e0"
    proof (rule mult_right_mono)
      show "\<bar>(of_int m0 :: rat) - ?x / 2 powi e0\<bar> \<le> 1 / 2" using half unfolding sc .
      show "(0::rat) \<le> 2 powi e0" by simp
    qed
    finally show ?thesis by simp
  qed
  from res unf have fin: "\<not> 971 < (if m0 = 2 ^ 53 then e0 + 1 else e0)"
    and u: "u = s" and m: "m = (if m0 = 2 ^ 53 then 2 ^ 52 else m0)"
    and e: "e = (if m0 = 2 ^ 53 then e0 + 1 else e0)"
    by (simp_all split: if_splits)
  show "u = s" by (rule u)
  show "float_valid (Finite u m e)"
  proof (cases "m0 = 2 ^ 53")
    case True
    with m e fin e0lo show ?thesis by (simp add: float_valid_def)
  next
    case False
    with m e fin e0lo m0up m0nn m0lo show ?thesis by (auto simp add: float_valid_def)
  qed
  show "\<bar>(of_int m :: rat) * 2 powi e - ?x\<bar> \<le> 2 powi e / 2"
  proof (cases "m0 = 2 ^ 53")
    case True
    then have "(of_int m :: rat) * 2 powi e = of_int m0 * 2 powi e0"
      using m e by (simp add: power_int_add)
    moreover have "(2::rat) powi e0 \<le> 2 powi e"
      using e by (intro power_int_increasing) simp_all
    ultimately show ?thesis using err0 by simp
  next
    case False
    with m e err0 show ?thesis by simp
  qed
qed

lemma float_div_correctly_rounded:
  assumes va: "float_valid a" and vb: "float_valid b" and nz: "\<not> float_eq_zero b"
    and xa: "float_val a = Some x" and yb: "float_val b = Some y"
    and res: "float_div a b = Finite u k g"
  shows "float_valid (Finite u k g)"
    and "\<exists>z. float_val (Finite u k g) = Some z \<and> \<bar>z - x / y\<bar> \<le> 2 powi g / 2"
proof -
  from xa obtain s m e where a: "a = Finite s m e"
    by (cases a) (simp_all add: float_val_def)
  from yb obtain t n f where b: "b = Finite t n f"
    by (cases b) (simp_all add: float_val_def)
  from va a have m0: "0 \<le> m" by (simp add: float_valid_def)
  from vb nz b have n0: "0 < n" by (simp add: float_valid_def float_eq_zero_def)
  let ?sg = "\<lambda>c. if c then - 1 else (1::rat)"
  have x: "x = ?sg s * of_int m * 2 powi e" using xa a by (simp add: float_val_def)
  have y: "y = ?sg t * of_int n * 2 powi f" using yb b by (simp add: float_val_def)
  define N where "N = m * 2 ^ nat (e - f)"
  define D where "D = n * 2 ^ nat (f - e)"
  have r: "round_float (s \<noteq> t) N D = Finite u k g"
    using res a b by (simp add: N_def D_def)
  have Dpos: "0 < D" using n0 by (simp add: D_def)
  have quot: "(of_int N :: rat) / of_int D = (of_int m * 2 powi e) / (of_int n * 2 powi f)"
  proof -
    have "(of_int N :: rat) / of_int D = of_int m / of_int n / 2 powi (f - e)"
      unfolding N_def D_def using ratio_scale [OF n0, of m "f - e"] by simp
    also have "(2::rat) powi (f - e) = 2 powi f / 2 powi e"
      by (rule power_int_diff) simp
    finally show ?thesis by simp
  qed
  have xy: "x / y = ?sg (s \<noteq> t) * (of_int N / of_int D)"
    unfolding quot x y by simp
  have "float_valid (Finite u k g) \<and>
      (\<exists>z. float_val (Finite u k g) = Some z \<and> \<bar>z - x / y\<bar> \<le> 2 powi g / 2)"
  proof (cases "m = 0")
    case True
    then have ukg: "u = (s \<noteq> t)" "k = 0" "g = - 1074"
      using r by (simp_all add: N_def round_float_def)
    then have "float_valid (Finite u k g)"
      by (simp add: float_valid_def)
    moreover from True have "x = 0" by (simp add: x)
    then have "\<bar>0 - x / y\<bar> \<le> 2 powi g / 2" by simp
    moreover have "float_val (Finite u k g) = Some 0"
      using ukg(2) by (simp add: float_val_def)
    ultimately show ?thesis by blast
  next
    case False
    with m0 have Npos: "0 < N" by (simp add: N_def)
    note c = round_float_correct [OF Npos Dpos r]
    have "\<bar>?sg u * of_int k * 2 powi g - x / y\<bar> =
        \<bar>?sg u * (of_int k * 2 powi g - of_int N / of_int D)\<bar>"
      unfolding xy c(1) by (simp add: right_diff_distrib)
    also have "\<dots> = \<bar>of_int k * 2 powi g - of_int N / of_int D\<bar>"
      by (simp add: abs_mult)
    finally have "\<exists>z. float_val (Finite u k g) = Some z \<and> \<bar>z - x / y\<bar> \<le> 2 powi g / 2"
      using c(3) by (simp add: float_val_def)
    with c(2) show ?thesis by simp
  qed
  then show "float_valid (Finite u k g)"
    and "\<exists>z. float_val (Finite u k g) = Some z \<and> \<bar>z - x / y\<bar> \<le> 2 powi g / 2"
    by simp_all
qed

subsection \<open>Results of the four operations\<close>

text \<open>
  C1. The statement is that for every pair of inputs \<open>a\<close> and \<open>b\<close>, \<open>add_numbers\<close> returns
  \<open>a + b\<close>, \<open>subtract_numbers\<close> returns \<open>a - b\<close> and \<open>multiply_numbers\<close> returns \<open>a * b\<close>,
  as the docstrings of the three functions say. The functions do so whenever arguments
  and result have at most 4300 digits (\<open>add_numbers_returns\<close>, \<open>subtract_numbers_returns\<close>,
  \<open>multiply_numbers_returns\<close>), but not always: multiplying \<open>10^2200\<close> by itself writes the
  entry record and then raises \<open>ValueError\<close> while the completion message is formatted,
  so the product is never returned.
\<close>

theorem multiply_numbers_raises_on_long_product:
  "multiply_numbers (10 ^ 2200) (10 ^ 2200) [] =
     (Inl int_str_error,
      [Tool_called ''multiply_numbers'' (PInt (10 ^ 2200)) (PInt (10 ^ 2200))])"
proof -
  have ok: "int_str_ok (10 ^ 2200)"
    by (rule int_str_ok_power10) (simp add: int_max_str_digits_def)
  have "\<not> int_str_ok (10 ^ (2200 + 2200))"
    by (rule not_int_str_ok_power10) (simp add: int_max_str_digits_def)
  then have long: "\<not> int_str_ok (10 ^ 2200 * 10 ^ 2200)"
    unfolding power_add .
  from multiply_numbers_long_result [OF ok ok long, of "[]"] show ?thesis
    by (simp only: append_Nil)
qed

text \<open>
  C2. For every \<open>a\<close> and every \<open>b\<close> that is not zero, \<open>divide_numbers\<close> returns the
  floating-point quotient of \<open>a\<close> by \<open>b\<close>; in particular dividing 100 by 4 returns the
  float 25.0.
\<close>

theorem divide_quotient:
  "(\<not> float_eq_zero b \<longrightarrow> fst (divide_numbers a b lg) = Inr (float_div a b)) \<and>
   fst (divide_numbers (float_of_int 100) (float_of_int 4) lg) = Inr (float_of_int 25) \<and>
   float_val (float_of_int 25) = Some 25"
proof (intro conjI impI)
  assume "\<not> float_eq_zero b"
  then show "fst (divide_numbers a b lg) = Inr (float_div a b)"
    by (simp add: divide_numbers_nonzero)
next
  show "fst (divide_numbers (float_of_int 100) (float_of_int 4) lg) = Inr (float_of_int 25)"
    by (simp add: divide_numbers_nonzero [OF float_four_not_zero] float_div_100_4)
next
  show "float_val (float_of_int 25) = Some 25"
    by code_simp
qed

theorem divide_quotient_witness:
  "\<not> float_eq_zero (float_of_int 3) \<and>
   fst (divide_numbers (float_of_int 1) (float_of_int 3) []) =
     Inr (Finite False 6004799503160661 (- 54))"
  using divide_quotient [of "float_of_int 3" "float_of_int 1" "[]"]
    float_three_not_zero float_div_1_3
  by simp

text \<open>
  C3. For every \<open>a\<close>, dividing by a second argument that is zero fails: the call returns
  no number but the error \<open>ValueError('Cannot divide by zero')\<close>. The function that the
  server holds under the name \<open>divide_numbers\<close> is this one, so the tool fails in the
  same way.
\<close>

theorem divide_by_zero_fails:
  "float_eq_zero b \<Longrightarrow>
   fst (divide_numbers a b lg) = Inl (ValueError ''Cannot divide by zero'') \<and>
   divide_numbers_tool \<in> set (tools mcp) \<and>
   (case tool_fn divide_numbers_tool of
      Float_tool f \<Rightarrow> fst (f a b lg) = Inl (ValueError ''Cannot divide by zero'')
    | Int_tool g \<Rightarrow> False)"
  by (simp add: divide_numbers_zero tools_mcp divide_numbers_tool_def)

theorem divide_by_zero_fails_witness:
  "float_eq_zero (float_of_int 0) \<and>
   fst (divide_numbers (float_of_int 7) (float_of_int 0) []) =
     Inl (ValueError ''Cannot divide by zero'')"
  using divide_by_zero_fails [OF float_zero_eq_zero, of "float_of_int 7" "[]"]
    float_zero_eq_zero
  by simp

subsection \<open>Discovery and invocation\<close>

text \<open>
  C4. Tool discovery returns exactly the four arithmetic operations, in the order add,
  subtract, multiply, divide, each with exactly two parameters, both numeric. The
  function behind each of them is the corresponding function of the module, which takes
  two numbers of those types; the four calculations of the client's task run and give
  42, 40, 48 and 25.0.
\<close>

theorem discovery_four_tools:
  "map (\<lambda>(name, params, ret). (name, map snd params)) (list_tools mcp) =
     [(''add_numbers'', [TInt, TInt]), (''subtract_numbers'', [TInt, TInt]),
      (''multiply_numbers'', [TInt, TInt]), (''divide_numbers'', [TFloat, TFloat])] \<and>
   map tool_fn (tools mcp) =
     [Int_tool add_numbers, Int_tool subtract_numbers, Int_tool multiply_numbers,
      Float_tool divide_numbers] \<and>
   fst (add_numbers 15 27 lg) = Inr 42 \<and>
   fst (subtract_numbers 50 10 lg) = Inr 40 \<and>
   fst (multiply_numbers 8 6 lg) = Inr 48 \<and>
   fst (divide_numbers (float_of_int 100) (float_of_int 4) lg) = Inr (float_of_int 25)"
proof -
  have "map (\<lambda>(name, params, ret). (name, map snd params)) (list_tools mcp) =
     [(''add_numbers'', [TInt, TInt]), (''subtract_numbers'', [TInt, TInt]),
      (''multiply_numbers'', [TInt, TInt]), (''divide_numbers'', [TFloat, TFloat])]"
    by (simp add: list_tools_def tools_mcp add_numbers_tool_def subtract_numbers_tool_def
        multiply_numbers_tool_def divide_numbers_tool_def)
  moreover have "map tool_fn (tools mcp) =
     [Int_tool add_numbers, Int_tool subtract_numbers, Int_tool multiply_numbers,
      Float_tool divide_numbers]"
    by (simp add: tools_mcp add_numbers_tool_def subtract_numbers_tool_def
        multiply_numbers_tool_def divide_numbers_tool_def)
  ultimately show ?thesis
    using scenario by simp
qed

subsection \<open>Logging\<close>

text \<open>
  C6 (as amended). Every invocation of \<open>add_numbers\<close>, \<open>subtract_numbers\<close> and
  \<open>multiply_numbers\<close> whose arguments and result have at most 4300 digits, and every
  invocation of \<open>divide_numbers\<close> whose second argument is not zero, appends exactly two
  records to the log: one on entry, then one on completion. An invocation of
  \<open>divide_numbers\<close> whose second argument is zero appends none.
\<close>

theorem calls_logged:
  "(int_str_ok x \<and> int_str_ok y \<and> int_str_ok (x + y) \<longrightarrow>
    snd (add_numbers x y lg) =
      lg @ [Tool_called ''add_numbers'' (PInt x) (PInt y),
            Tool_completed ''add_numbers'' (PInt (x + y))]) \<and>
   (int_str_ok x \<and> int_str_ok y \<and> int_str_ok (x - y) \<longrightarrow>
    snd (subtract_numbers x y lg) =
      lg @ [Tool_called ''subtract_numbers'' (PInt x) (PInt y),
            Tool_completed ''subtract_numbers'' (PInt (x - y))]) \<and>
   (int_str_ok x \<and> int_str_ok y \<and> int_str_ok (x * y) \<longrightarrow>
    snd (multiply_numbers x y lg) =
      lg @ [Tool_called ''multiply_numbers'' (PInt x) (PInt y),
            Tool_completed ''multiply_numbers'' (PInt (x * y))]) \<and>
   snd (divide_numbers a b lg) =
     (if float_eq_zero b then lg
      else lg @ [Tool_called ''divide_numbers'' (PFloat a) (PFloat b),
                 Tool_completed ''divide_numbers'' (PFloat (float_div a b))])"
  by (simp add: add_numbers_returns subtract_numbers_returns multiply_numbers_returns
      divide_numbers_nonzero divide_numbers_zero)

theorem calls_logged_witness:
  "int_str_ok 15 \<and> int_str_ok 27 \<and> int_str_ok (15 + 27) \<and> int_str_ok (15 - 27) \<and>
   int_str_ok (15 * 27) \<and>
   snd (add_numbers 15 27 []) =
     [Tool_called ''add_numbers'' (PInt 15) (PInt 27),
      Tool_completed ''add_numbers'' (PInt 42)] \<and>
   snd (subtract_numbers 15 27 []) =
     [Tool_called ''subtract_numbers'' (PInt 15) (PInt 27),
      Tool_completed ''subtract_numbers'' (PInt (- 12))] \<and>
   snd (multiply_numbers 15 27 []) =
     [Tool_called ''multiply_numbers'' (PInt 15) (PInt 27),
      Tool_completed ''multiply_numbers'' (PInt 405)] \<and>
   snd (divide_numbers (float_of_int 100) (float_of_int 4) []) =
     [Tool_called ''divide_numbers'' (PFloat (float_of_int 100)) (PFloat (float_of_int 4)),
      Tool_completed ''divide_numbers'' (PFloat (float_of_int 25))]"
  using calls_logged [of 15 27 "[]" "float_of_int 100" "float_of_int 4"]
    float_four_not_zero float_div_100_4
  by (simp add: int_str_ok_small)

text \<open>
  C6 as stated fails: a division of 7 by 0, started with an empty log, raises and
  leaves the log empty, so neither an entry record nor a completion record is written.
\<close>

theorem divide_by_zero_not_logged:
  "fst (divide_numbers (float_of_int 7) (float_of_int 0) []) =
     Inl (ValueError ''Cannot divide by zero'') \<and>
   snd (divide_numbers (float_of_int 7) (float_of_int 0) []) = []"
  by (simp add: divide_numbers_zero [OF float_zero_eq_zero])

text \<open>
  C8. When the second argument is zero, \<open>divide_numbers\<close> fails before it logs anything:
  the log after the failed call is the log before it.
\<close>

theorem divide_by_zero_log_unchanged:
  "float_eq_zero b \<Longrightarrow> snd (divide_numbers a b lg) = lg"
  by (simp add: divide_numbers_zero)

theorem divide_by_zero_log_unchanged_witness:
  "float_eq_zero (float_of_int 0) \<and>
   snd (divide_numbers (float_of_int 7) (float_of_int 0)
          [Tool_called ''add_numbers'' (PInt 1) (PInt 2),
           Tool_completed ''add_numbers'' (PInt 3)]) =
     [Tool_called ''add_numbers'' (PInt 1) (PInt 2), Tool_completed ''add_numbers'' (PInt 3)]"
  using divide_by_zero_log_unchanged [OF float_zero_eq_zero] float_zero_eq_zero
  by simp

subsection \<open>Purity\<close>

text \<open>
  C7. The four operations are pure and stateless: the result of a call and the records
  it emits depend on the arguments only, never on the state the call starts from, and
  the call changes that state only by appending its own records. So two calls with the
  same arguments return the same result, whatever other calls ran before or in between.
\<close>

theorem tools_pure:
  "fst (add_numbers x y lg) = fst (add_numbers x y []) \<and>
   snd (add_numbers x y lg) = lg @ snd (add_numbers x y []) \<and>
   fst (subtract_numbers x y lg) = fst (subtract_numbers x y []) \<and>
   snd (subtract_numbers x y lg) = lg @ snd (subtract_numbers x y []) \<and>
   fst (multiply_numbers x y lg) = fst (multiply_numbers x y []) \<and>
   snd (multiply_numbers x y lg) = lg @ snd (multiply_numbers x y []) \<and>
   fst (divide_numbers a b lg) = fst (divide_numbers a b []) \<and>
   snd (divide_numbers a b lg) = lg @ snd (divide_numbers a b [])"
  by (cases "float_eq_zero b")
    (simp_all add: add_numbers_def subtract_numbers_def multiply_numbers_def
      logger_info_def Let_def divide_numbers_nonzero divide_numbers_zero)

subsection \<open>Integer and floating-point tools\<close>


section \<open>Properties of the client script\<close>

text \<open>
  C5. If connecting to the server or discovering its tools fails, the script reports the
  error (the message and the hint to check that the server is running), never starts the
  crew, so that no tool is called, and ends normally.
\<close>

theorem connection_failure_reported:
  "connect ev = Inl (Exception msg) \<Longrightarrow>
   crew_script ev = ([Print_error msg, Print_ensure_running], Clean_exit) \<and>
   Crew_kickoff \<notin> set (fst (crew_script ev))"
  by (simp add: crew_script_def except_Exception_def)

theorem connection_failure_reported_witness:
  "connect \<lparr>connect = Inl (Exception ''refused''), build = None, kickoff = Inr ''report''\<rparr> =
     Inl (Exception ''refused'') \<and>
   crew_script \<lparr>connect = Inl (Exception ''refused''), build = None, kickoff = Inr ''report''\<rparr> =
     ([Print_error ''refused'', Print_ensure_running], Clean_exit)"
  using connection_failure_reported
    [of "\<lparr>connect = Inl (Exception ''refused''), build = None, kickoff = Inr ''report''\<rparr>"
        "''refused''"]
  by simp

text \<open>
  C10. If the connection succeeds but no tool was discovered, the script never starts
  the crew; once the agent, the task and the crew are constructed it prints the
  skip message in place of the kickoff and ends normally.
\<close>

theorem no_tools_skips_kickoff:
  "connect ev = Inr [] \<Longrightarrow>
   Crew_kickoff \<notin> set (fst (crew_script ev)) \<and>
   (build ev = None \<longrightarrow>
    crew_script ev = ([Print_available_tools [], Print_skipping, Adapter_exit], Clean_exit))"
  by (simp add: crew_script_def except_Exception_def Let_def split: option.splits exc.splits)

theorem no_tools_skips_kickoff_witness:
  "connect \<lparr>connect = Inr [], build = None, kickoff = Inr ''report''\<rparr> = Inr [] \<and>
   build \<lparr>connect = Inr [], build = None, kickoff = Inr ''report''\<rparr> = None \<and>
   crew_script \<lparr>connect = Inr [], build = None, kickoff = Inr ''report''\<rparr> =
     ([Print_available_tools [], Print_skipping, Adapter_exit], Clean_exit)"
  using no_tools_skips_kickoff
    [of "\<lparr>connect = Inr [], build = None, kickoff = Inr ''report''\<rparr>"]
  by simp

end
